theory Spec2Isabelle
  imports Complex_Main
begin

section \<open>The live audio session hook (src/hooks/useGeminiLive.ts)\<close>

text \<open>
  The hook keeps React state (\<open>isConnected\<close>, \<open>isConnecting\<close>, \<open>error\<close>, the two
  volumes), a handful of refs, and closures created by each call of \<open>connect\<close>. The
  events of the model are sequential: every handler runs to completion before the next
  event is delivered. For \<open>disconnect\<close>, which suspends at \<open>await close()\<close>, the
  segments between its suspension points are modelled as well, so that a call made
  while an earlier one is in flight can be stated.
  The JavaScript numbers that are device times and durations are kept abstract: the
  type \<open>'t\<close> is any linearly ordered type with a zero and an addition, of which
  nothing else is assumed, so what is proved about scheduling holds whether or not the
  addition rounds. Volumes are modelled as \<open>real\<close>.

  Objects of the browser that the code holds by reference live in explicit stores
  (lists indexed by address): audio contexts, buffer source nodes, microphone tracks
  and the lexical environments of the \<open>connect\<close> calls.
\<close>

subsection \<open>Platform objects\<close>

datatype js_error = InvalidStateError | NotAllowedError | MalformedAudioData

datatype context_state = Running | Closed

datatype play_state = Scheduled | Stopped | Ended

datatype track_state = Live | TrackEnded

record 't audio_buffer =
  duration :: 't

record 't buffer_source =
  buffer :: "'t audio_buffer"
  startedAt :: 't
  playState :: play_state

text \<open>
  The part of a \<open>LiveServerMessage\<close> that \<open>onmessage\<close> reads:
  \<open>serverContent?.modelTurn?.parts?.[0]?.inlineData?.data\<close> (absent anywhere along the
  chain gives \<open>None\<close>) and \<open>serverContent?.interrupted\<close>.
\<close>

record message =
  inlineData :: "string option"
  interrupted :: bool

text \<open>
  The lexical environment of one \<open>connect\<close> call: the constants \<open>stream\<close>,
  \<open>inputCtx\<close>, \<open>outputCtx\<close> (addresses in the stores) and whether
  \<open>processor.onaudioprocess\<close> has been assigned. One such environment is also one
  transport session (\<open>sessionPromise\<close>).
\<close>

record connect_closure =
  stream :: nat
  inputCtx :: nat
  outputCtx :: nat
  onaudioprocess :: bool

record 't hook_state =
  isConnected :: bool
  isConnecting :: bool
  error :: "string option"
  inputVolume :: real
  outputVolume :: real
  audioContextRef :: "nat option"
  outputContextRef :: "nat option"
  nextStartTimeRef :: 't
  activeSourcesRef :: "nat list"
  inputAnalyserRef :: bool
  outputAnalyserRef :: bool
  animationFrameRef :: "nat option"
  contexts :: "context_state list"
  sources :: "'t buffer_source list"
  tracks :: "track_state list"
  closures :: "connect_closure list"
  console :: "string list"
  sent :: "(nat \<times> string) list"

text \<open>The values of \<open>useState\<close> and \<open>useRef\<close> at lines 12-35, with empty stores.\<close>

definition initial :: "'t::{linorder,plus,zero} hook_state" where
  "initial =
    \<lparr>isConnected = False, isConnecting = False, error = None,
     inputVolume = 0, outputVolume = 0,
     audioContextRef = None, outputContextRef = None,
     nextStartTimeRef = 0, activeSourcesRef = [],
     inputAnalyserRef = False, outputAnalyserRef = False,
     animationFrameRef = None,
     contexts = [], sources = [], tracks = [], closures = [],
     console = [], sent = []\<rparr>"

subsection \<open>Platform operations\<close>

text \<open>
  \<open>AudioContext.close()\<close> rejects with \<open>InvalidStateError\<close> on a context that is
  already closed.
\<close>

definition ctx_close :: "nat \<Rightarrow> context_state list \<Rightarrow> js_error + context_state list" where
  "ctx_close c cs =
    (if c < length cs \<and> cs ! c = Running then Inr (cs[c := Closed])
     else Inl InvalidStateError)"

text \<open>
  \<open>AudioBufferSourceNode.stop()\<close>: a source that is scheduled or playing stops; on one
  that has already stopped or ended the platform may throw \<open>InvalidStateError\<close>.
\<close>

definition source_stop :: "'t buffer_source \<Rightarrow> js_error + 't buffer_source" where
  "source_stop src =
    (if playState src = Scheduled then Inr (src\<lparr>playState := Stopped\<rparr>)
     else Inl InvalidStateError)"

text \<open>
  A microphone track (\<open>MediaStreamTrack\<close>) obtained from \<open>getUserMedia\<close> stays live,
  and the device stays in use, until \<open>stop()\<close> is called on the track; closing an
  \<open>AudioContext\<close> that reads from the stream does not end it. The hook never calls
  \<open>stop()\<close> on a track, so the model has no operation that does.
\<close>

text \<open>A JavaScript \<open>Set\<close> keeps insertion order and no duplicates.\<close>

definition set_add :: "nat \<Rightarrow> nat list \<Rightarrow> nat list" where
  "set_add x xs = (if x \<in> set xs then xs else xs @ [x])"

definition set_delete :: "nat \<Rightarrow> nat list \<Rightarrow> nat list" where
  "set_delete x xs = removeAll x xs"

subsection \<open>Playback: the audio path and the interruption path of \<open>onmessage\<close>\<close>

text \<open>
  \<open>activeSourcesRef.current.forEach(s => { try { s.stop(); } catch(e){} })\<close>
  (lines 50-54 and 200-202): the exception of \<open>stop\<close> is swallowed and the source is
  left as it is.
\<close>

fun stop_each :: "nat list \<Rightarrow> 't buffer_source list \<Rightarrow> 't buffer_source list" where
  "stop_each [] srcs = srcs"
| "stop_each (i # rest) srcs =
    stop_each rest
      (if i < length srcs then
         (case source_stop (srcs ! i) of
            Inl e \<Rightarrow> srcs
          | Inr src \<Rightarrow> srcs[i := src])
       else srcs)"

text \<open>
  Lines 178-194, after the chunk has been decoded: \<open>currentTime\<close> is
  \<open>outputCtx.currentTime\<close>, the new source node gets the next free address.
\<close>

definition play_chunk ::
  "'t::{linorder,plus,zero} \<Rightarrow> 't audio_buffer \<Rightarrow> 't hook_state \<Rightarrow> 't hook_state" where
  "play_chunk currentTime audioBuffer s =
    (let startAt = (if nextStartTimeRef s < currentTime then currentTime
                    else nextStartTimeRef s);
         source = length (sources s)
     in s\<lparr>nextStartTimeRef := startAt + duration audioBuffer,
          sources := sources s @
            [\<lparr>buffer = audioBuffer, startedAt = startAt, playState = Scheduled\<rparr>],
          activeSourcesRef := set_add source (activeSourcesRef s)\<rparr>)"

text \<open>Lines 198-205.\<close>

definition interruption :: "'t::{linorder,plus,zero} hook_state \<Rightarrow> 't hook_state" where
  "interruption s =
    s\<lparr>console := console s @ [''Interrupted by user''],
      sources := stop_each (activeSourcesRef s) (sources s),
      activeSourcesRef := [],
      nextStartTimeRef := 0\<rparr>"

text \<open>
  \<open>onmessage\<close> (lines 171-206). The helpers \<open>base64ToUint8Array\<close> and
  \<open>decodeAudioData\<close> belong to the module \<open>utils/audioUtils\<close>; their composition is
  the parameter \<open>decode\<close>, which either throws or yields the decoded buffer. The
  handler has no \<open>try\<close>: a throw ends it at once (its promise rejects), before any ref
  has been written. The result is the exception, if any, and the state left behind.
  A string is truthy when it is not empty; \<open>outputCtx\<close> and \<open>outputGain\<close> are objects and
  always truthy.
\<close>

definition onmessage ::
  "(string \<Rightarrow> js_error + 't audio_buffer) \<Rightarrow> 't::{linorder,plus,zero} \<Rightarrow> message
    \<Rightarrow> 't hook_state \<Rightarrow> js_error option \<times> 't hook_state" where
  "onmessage decode currentTime m s =
    (case (case inlineData m of
             None \<Rightarrow> Inr s
           | Some base64Audio \<Rightarrow>
               if base64Audio = [] then Inr s
               else (case decode base64Audio of
                       Inl e \<Rightarrow> Inl e
                     | Inr audioBuffer \<Rightarrow> Inr (play_chunk currentTime audioBuffer s))) of
       Inl e \<Rightarrow> (Some e, s)
     | Inr s1 \<Rightarrow> (None, if interrupted m then interruption s1 else s1))"

text \<open>
  \<open>source.onended\<close> (lines 192-194) for the source at address \<open>source\<close>, and the
  platform event that fires it when the source has played to its end.
\<close>

definition onended :: "nat \<Rightarrow> 't hook_state \<Rightarrow> 't hook_state" where
  "onended source s = s\<lparr>activeSourcesRef := set_delete source (activeSourcesRef s)\<rparr>"

definition source_finished :: "nat \<Rightarrow> 't hook_state \<Rightarrow> 't hook_state" where
  "source_finished source s =
    (if source < length (sources s) \<and> playState (sources s ! source) = Scheduled
     then onended source
            (s\<lparr>sources := (sources s)[source := (sources s ! source)\<lparr>playState := Ended\<rparr>]\<rparr>)
     else s)"

subsection \<open>Session lifecycle: \<open>disconnect\<close>, \<open>updateVolumes\<close>, \<open>connect\<close> and the transport callbacks\<close>

text \<open>
  Lines 40-47: \<open>if (ref.current) { await ref.current.close(); ref.current = null; }\<close>
  for one of the two context refs. A rejected \<open>close\<close> leaves the ref as it was.
\<close>

definition close_ref ::
  "nat option \<Rightarrow> context_state list \<Rightarrow> js_error + (nat option \<times> context_state list)" where
  "close_ref r cs =
    (case r of
       None \<Rightarrow> Inr (None, cs)
     | Some c \<Rightarrow>
         (case ctx_close c cs of
            Inl e \<Rightarrow> Inl e
          | Inr cs' \<Rightarrow> Inr (None, cs')))"

text \<open>
  \<open>disconnect\<close> (lines 38-66). A rejection of \<open>close\<close> ends the function where it
  stands; the result is the exception, if any, and the state left behind. The handle of
  \<open>requestAnimationFrame\<close> is tested for truthiness, so a handle \<open>0\<close> would be skipped.
  \<open>setState\<close> spreads \<open>prev\<close>: the \<open>error\<close> field is carried over.
\<close>

definition disconnect :: "'t hook_state \<Rightarrow> js_error option \<times> 't hook_state" where
  "disconnect s =
    (case close_ref (audioContextRef s) (contexts s) of
       Inl e \<Rightarrow> (Some e, s)
     | Inr (r1, cs1) \<Rightarrow>
         (let s1 = s\<lparr>audioContextRef := r1, contexts := cs1\<rparr> in
          case close_ref (outputContextRef s1) (contexts s1) of
            Inl e \<Rightarrow> (Some e, s1)
          | Inr (r2, cs2) \<Rightarrow>
              (let s2 = s1\<lparr>outputContextRef := r2, contexts := cs2\<rparr>;
                   s3 = s2\<lparr>sources := stop_each (activeSourcesRef s2) (sources s2),
                           activeSourcesRef := []\<rparr>;
                   s4 = (case animationFrameRef s3 of
                           None \<Rightarrow> s3
                         | Some h \<Rightarrow> if h \<noteq> 0 then s3\<lparr>animationFrameRef := None\<rparr> else s3)
               in (None, s4\<lparr>isConnected := False, isConnecting := False,
                               inputVolume := 0, outputVolume := 0\<rparr>))))"

text \<open>
  The same function cut at its two suspension points. \<open>close()\<close> marks the context
  closed when it is called and hands back a promise; \<open>await\<close> suspends the call, and
  only the resumed call sets the ref to \<open>null\<close> (lines 41-42 and 45-46). With a ref
  that is \<open>null\<close> there is no \<open>await\<close> and the call runs on. \<open>disconnect_begin\<close> is the
  call up to its first suspension, \<open>disconnect_resume\<close> the segment after a
  suspension, \<open>disconnect_finish\<close> lines 49-65, and \<open>disconnect_sequential\<close> a call
  that is resumed with nothing happening in between.
\<close>

datatype disconnect_status =
  Settled | Rejected js_error | AwaitingInputClose | AwaitingOutputClose

definition disconnect_finish :: "'t hook_state \<Rightarrow> 't hook_state" where
  "disconnect_finish s =
    (let s3 = s\<lparr>sources := stop_each (activeSourcesRef s) (sources s),
                 activeSourcesRef := []\<rparr>;
         s4 = (case animationFrameRef s3 of
                 None \<Rightarrow> s3
               | Some h \<Rightarrow> if h \<noteq> 0 then s3\<lparr>animationFrameRef := None\<rparr> else s3)
     in s4\<lparr>isConnected := False, isConnecting := False,
           inputVolume := 0, outputVolume := 0\<rparr>)"

definition disconnect_output :: "'t hook_state \<Rightarrow> disconnect_status \<times> 't hook_state" where
  "disconnect_output s =
    (case outputContextRef s of
       None \<Rightarrow> (Settled, disconnect_finish s)
     | Some c \<Rightarrow>
         (case ctx_close c (contexts s) of
            Inl e \<Rightarrow> (Rejected e, s)
          | Inr cs \<Rightarrow> (AwaitingOutputClose, s\<lparr>contexts := cs\<rparr>)))"

definition disconnect_begin :: "'t hook_state \<Rightarrow> disconnect_status \<times> 't hook_state" where
  "disconnect_begin s =
    (case audioContextRef s of
       None \<Rightarrow> disconnect_output s
     | Some c \<Rightarrow>
         (case ctx_close c (contexts s) of
            Inl e \<Rightarrow> (Rejected e, s)
          | Inr cs \<Rightarrow> (AwaitingInputClose, s\<lparr>contexts := cs\<rparr>)))"



text \<open>
  \<open>updateVolumes\<close> (lines 69-89). The byte arrays are what the two analysers deliver
  (\<open>frequencyBinCount\<close> = 128 entries each), \<open>handle\<close> is what \<open>requestAnimationFrame\<close>
  returns.
\<close>

definition byte_average :: "nat list \<Rightarrow> real" where
  "byte_average dataArray = real (sum_list dataArray) / real (length dataArray) / 255"

definition updateVolumes ::
  "nat list \<Rightarrow> nat list \<Rightarrow> nat \<Rightarrow> 't hook_state \<Rightarrow> 't hook_state" where
  "updateVolumes inputData outputData handle s =
    s\<lparr>inputVolume := (if inputAnalyserRef s then byte_average inputData else 0),
      outputVolume := (if outputAnalyserRef s then byte_average outputData else 0),
      animationFrameRef := Some handle\<rparr>"

text \<open>
  What one call of \<open>connect\<close> meets in its environment: whether
  \<open>process.env.API_KEY\<close> is set, whether \<open>getUserMedia\<close> resolves, and the inputs of
  the first \<open>updateVolumes\<close>.
\<close>

record connect_env =
  apiKey :: bool
  micGranted :: bool
  inputData :: "nat list"
  outputData :: "nat list"
  frameHandle :: nat

text \<open>
  \<open>connect\<close> (lines 92-223). The constructors of the audio graph are taken not to
  throw; \<open>getUserMedia\<close> is the step of the \<open>try\<close> block that can fail. The call of
  \<open>ai.live.connect\<close> is not awaited: it only registers the callbacks, which the
  transport fires later for this closure.
\<close>

definition connect ::
  "string \<Rightarrow> connect_env \<Rightarrow> 't::{linorder,plus,zero} hook_state \<Rightarrow> 't hook_state" where
  "connect voiceName env s =
    (if \<not> apiKey env then s\<lparr>error := Some ''API Key not found in environment''\<rparr>
     else
       (let s1 = s\<lparr>isConnecting := True, error := None\<rparr> in
        if \<not> micGranted env then
          s1\<lparr>console := console s1 @ [''Failed to connect''],
             isConnecting := False,
             error := Some ''Failed to access microphone or connect.''\<rparr>
        else
          (let stream = length (tracks s1);
               inputCtx = length (contexts s1);
               outputCtx = Suc inputCtx;
               s2 = s1\<lparr>tracks := tracks s1 @ [Live],
                       contexts := contexts s1 @ [Running, Running],
                       audioContextRef := Some inputCtx,
                       inputAnalyserRef := True,
                       outputContextRef := Some outputCtx,
                       outputAnalyserRef := True,
                       nextStartTimeRef := 0\<rparr>;
               s3 = updateVolumes (inputData env) (outputData env) (frameHandle env) s2
           in s3\<lparr>closures := closures s3 @
                  [\<lparr>stream = stream, inputCtx = inputCtx, outputCtx = outputCtx,
                    onaudioprocess = False\<rparr>]\<rparr>)))"

text \<open>The callbacks of the closure at address \<open>k\<close> (lines 158-215).\<close>

definition onopen :: "nat \<Rightarrow> 't hook_state \<Rightarrow> 't hook_state" where
  "onopen k s =
    s\<lparr>console := console s @ [''Gemini Live Session Opened''],
      isConnected := True, isConnecting := False,
      closures := (closures s)[k := (closures s ! k)\<lparr>onaudioprocess := True\<rparr>]\<rparr>"

text \<open>
  The handler assigned at lines 163-169; \<open>createPcmBlob\<close> is a helper of the module
  \<open>utils/audioUtils\<close> and a parameter here. \<open>sent\<close> records what \<open>session.sendRealtimeInput\<close> was given, and by
  which session.
\<close>

definition audioprocess ::
  "(real list \<Rightarrow> string) \<Rightarrow> nat \<Rightarrow> real list \<Rightarrow> 't hook_state \<Rightarrow> 't hook_state" where
  "audioprocess createPcmBlob k frame s = s\<lparr>sent := sent s @ [(k, createPcmBlob frame)]\<rparr>"

text \<open>
  \<open>onclose\<close> and \<open>onerror\<close> call \<open>disconnect()\<close> without awaiting it: a rejection
  goes unobserved, the state it left stays.
\<close>

definition onclose :: "'t hook_state \<Rightarrow> 't hook_state" where
  "onclose s = snd (disconnect (s\<lparr>console := console s @ [''Gemini Live Session Closed'']\<rparr>))"

definition onerror :: "'t hook_state \<Rightarrow> 't hook_state" where
  "onerror s =
    snd (disconnect (s\<lparr>console := console s @ [''Gemini Live Error''],
                       error := Some ''Connection error occurred.''\<rparr>))"

subsection \<open>Events and reachable states\<close>

datatype 't event =
    Connect string connect_env
  | Disconnect
  | OnOpen nat
  | OnMessage nat 't message
  | OnClose nat
  | OnError nat
  | AudioProcess nat "real list"
  | AnimationFrame "nat list" "nat list" nat
  | SourceEnded nat

text \<open>
  When the platform can deliver an event: a transport callback needs its closure; a
  script processor fires \<open>audioprocess\<close> only with a handler assigned and while its
  context runs; an animation frame fires unless it was cancelled; a source ends on its
  own only while it is scheduled or playing. The hook itself accepts \<open>connect\<close> and
  \<open>disconnect\<close> at any time.
\<close>

fun enabled :: "'t event \<Rightarrow> 't hook_state \<Rightarrow> bool" where
  "enabled (Connect voiceName env) s = True"
| "enabled Disconnect s = True"
| "enabled (OnOpen k) s = (k < length (closures s))"
| "enabled (OnMessage k currentTime m) s = (k < length (closures s))"
| "enabled (OnClose k) s = (k < length (closures s))"
| "enabled (OnError k) s = (k < length (closures s))"
| "enabled (AudioProcess k frame) s =
    (k < length (closures s) \<and> onaudioprocess (closures s ! k) \<and>
     inputCtx (closures s ! k) < length (contexts s) \<and>
     contexts s ! inputCtx (closures s ! k) = Running)"
| "enabled (AnimationFrame inData outData handle) s = (animationFrameRef s \<noteq> None)"
| "enabled (SourceEnded source) s =
    (source < length (sources s) \<and> playState (sources s ! source) = Scheduled)"

fun step ::
  "(string \<Rightarrow> js_error + 't audio_buffer) \<Rightarrow> (real list \<Rightarrow> string) \<Rightarrow> 't event
    \<Rightarrow> 't::{linorder,plus,zero} hook_state \<Rightarrow> 't hook_state" where
  "step decode createPcmBlob (Connect voiceName env) s = connect voiceName env s"
| "step decode createPcmBlob Disconnect s = snd (disconnect s)"
| "step decode createPcmBlob (OnOpen k) s = onopen k s"
| "step decode createPcmBlob (OnMessage k currentTime m) s =
    snd (onmessage decode currentTime m s)"
| "step decode createPcmBlob (OnClose k) s = onclose s"
| "step decode createPcmBlob (OnError k) s = onerror s"
| "step decode createPcmBlob (AudioProcess k frame) s = audioprocess createPcmBlob k frame s"
| "step decode createPcmBlob (AnimationFrame inData outData handle) s =
    updateVolumes inData outData handle s"
| "step decode createPcmBlob (SourceEnded source) s = source_finished source s"




inductive reachable ::
  "(string \<Rightarrow> js_error + 't audio_buffer) \<Rightarrow> (real list \<Rightarrow> string)
    \<Rightarrow> 't::{linorder,plus,zero} hook_state \<Rightarrow> bool"
  for decode :: "string \<Rightarrow> js_error + 't audio_buffer"
    and createPcmBlob :: "real list \<Rightarrow> string"
  where
    reachable_initial: "reachable decode createPcmBlob initial"
  | reachable_step:
      "reachable decode createPcmBlob s \<Longrightarrow> enabled e s
        \<Longrightarrow> reachable decode createPcmBlob (step decode createPcmBlob e s)"

subsection \<open>Message sequences and the scheduling specification\<close>

text \<open>The transport delivers messages in order; each comes with the device time read
  when its chunk is scheduled.\<close>

fun deliver ::
  "(string \<Rightarrow> js_error + 't audio_buffer) \<Rightarrow> ('t \<times> message) list
    \<Rightarrow> 't::{linorder,plus,zero} hook_state \<Rightarrow> 't hook_state" where
  "deliver decode [] s = s"
| "deliver decode ((currentTime, m) # rest) s =
    deliver decode rest (snd (onmessage decode currentTime m s))"

text \<open>The decoded chunk that a message carries into the audio path, if any.\<close>

definition chunk_of ::
  "(string \<Rightarrow> js_error + 't audio_buffer) \<Rightarrow> message \<Rightarrow> 't audio_buffer option" where
  "chunk_of decode m =
    (case inlineData m of
       None \<Rightarrow> None
     | Some base64Audio \<Rightarrow>
         if base64Audio = [] then None
         else (case decode base64Audio of
                 Inl e \<Rightarrow> None
               | Inr audioBuffer \<Rightarrow> Some audioBuffer))"

text \<open>
  The specification's side of gapless playback: the start times
  \<open>t0, t0+d1, (t0+d1)+d2, \<dots>\<close> of chunks with durations \<open>d1, d2, \<dots>\<close>, and the
  condition that the device clock \<open>now\<close> never overtakes the cursor.
\<close>

fun spec_start_times :: "'t::{linorder,plus,zero} \<Rightarrow> 't list \<Rightarrow> 't list" where
  "spec_start_times t [] = []"
| "spec_start_times t (d # ds) = t # spec_start_times (t + d) ds"

fun no_stall :: "'t::{linorder,plus,zero} \<Rightarrow> ('t \<times> 't) list \<Rightarrow> bool" where
  "no_stall cursor [] = True"
| "no_stall cursor ((now, d) # rest) = (now \<le> cursor \<and> no_stall (cursor + d) rest)"

definition scheduled :: "'t \<Rightarrow> 't audio_buffer \<Rightarrow> 't buffer_source" where
  "scheduled t b = \<lparr>buffer = b, startedAt = t, playState = Scheduled\<rparr>"

subsection \<open>Invariants\<close>

text \<open>Every member of ActiveSources is a source that has neither ended nor been stopped.\<close>

definition active_sources_live :: "'t hook_state \<Rightarrow> bool" where
  "active_sources_live s =
    (\<forall>src\<in>set (activeSourcesRef s).
       src < length (sources s) \<and> playState (sources s ! src) = Scheduled)"

text \<open>The two context refs, when set, hold two different contexts that are still open.\<close>

definition refs_open :: "'t hook_state \<Rightarrow> bool" where
  "refs_open s =
    ((case audioContextRef s of
        None \<Rightarrow> True
      | Some c \<Rightarrow> c < length (contexts s) \<and> contexts s ! c = Running) \<and>
     (case outputContextRef s of
        None \<Rightarrow> True
      | Some c \<Rightarrow> c < length (contexts s) \<and> contexts s ! c = Running \<and>
          audioContextRef s \<noteq> Some c))"



subsection \<open>Example inputs\<close>

definition example_decode :: "string \<Rightarrow> js_error + real audio_buffer" where
  "example_decode base64Audio =
    (if base64Audio = ''AAAA'' then Inr \<lparr>duration = 1/2\<rparr>
     else if base64Audio = ''AAAAAA=='' then Inr \<lparr>duration = 1/4\<rparr>
     else Inl MalformedAudioData)"


definition example_env :: connect_env where
  "example_env =
    \<lparr>apiKey = True, micGranted = True, inputData = [0], outputData = [0], frameHandle = 1\<rparr>"

definition audio_message :: "string \<Rightarrow> message" where
  "audio_message base64Audio = \<lparr>inlineData = Some base64Audio, interrupted = False\<rparr>"

definition interrupted_message :: message where
  "interrupted_message = \<lparr>inlineData = None, interrupted = True\<rparr>"

text \<open>The state after \<open>connect("Kore")\<close> and the transport's \<open>onopen\<close>.\<close>

definition example_connected :: "real hook_state" where
  "example_connected = onopen 0 (connect ''Kore'' example_env initial)"

text \<open>The same, with one chunk of half a second scheduled at device time 2.\<close>

definition example_playing :: "real hook_state" where
  "example_playing = snd (onmessage example_decode 2 (audio_message ''AAAA'') example_connected)"



subsection \<open>The PCM codec of the specification\<close>

text \<open>
  Modelled from the spec: the PCM encoder and decoder of section 4.1. The module that
  implements them (\<open>utils/audioUtils\<close>, imported at line 4 of the hook) is not part
  of the sources modelled above, so the definitions follow the specification's words: \<open>encode\<close> scales a float by 32767
  and clamps to the 16-bit range, writing each value as two little-endian bytes;
  \<open>decode\<close> is the inverse, reading signed 16-bit values and rescaling by 32767, and
  fails with \<open>MalformedAudioData\<close> unless the payload length is a multiple of two bytes
  per channel. The specification does not say how a scaled float becomes an integer;
  the conversion is the parameter \<open>rnd\<close>. Samples are real numbers here.
\<close>

definition clamp16 :: "int \<Rightarrow> int" where
  "clamp16 q = max (- 32768) (min 32767 q)"

definition encode_sample :: "(real \<Rightarrow> int) \<Rightarrow> real \<Rightarrow> int" where
  "encode_sample rnd x = clamp16 (rnd (x * 32767))"

text \<open>The two bytes of a 16-bit two's complement value, low byte first.\<close>

definition int16_le :: "int \<Rightarrow> nat list" where
  "int16_le q = [nat (q mod 256), nat ((q div 256) mod 256)]"

definition pcm_encode :: "(real \<Rightarrow> int) \<Rightarrow> real list \<Rightarrow> nat list" where
  "pcm_encode rnd samples = concat (map (\<lambda>x. int16_le (encode_sample rnd x)) samples)"

definition le_int16 :: "nat \<Rightarrow> nat \<Rightarrow> int" where
  "le_int16 lo hi = (let u = int lo + 256 * int hi in if u < 32768 then u else u - 65536)"

fun pcm_samples :: "nat list \<Rightarrow> real list" where
  "pcm_samples (lo # hi # rest) = real_of_int (le_int16 lo hi) / 32767 # pcm_samples rest"
| "pcm_samples rest = []"

record pcm_buffer =
  samples :: "real list"
  sampleRate :: nat
  numberOfChannels :: nat

definition pcm_decode :: "nat list \<Rightarrow> nat \<Rightarrow> nat \<Rightarrow> js_error + pcm_buffer" where
  "pcm_decode payload rate channels =
    (if length payload mod (2 * channels) \<noteq> 0 then Inl MalformedAudioData
     else Inr \<lparr>samples = pcm_samples payload, sampleRate = rate, numberOfChannels = channels\<rparr>)"

text \<open>One conversion to an integer: truncation towards zero.\<close>

definition trunc_zero :: "real \<Rightarrow> int" where
  "trunc_zero y = (if 0 \<le> y then \<lfloor>y\<rfloor> else \<lceil>y\<rceil>)"

section \<open>Playback scheduler\<close>

subsection \<open>Stopping sources\<close>

lemma stop_each_length [simp]: "length (stop_each is srcs) = length srcs"
  by (induction "is" srcs rule: stop_each.induct) (auto simp: source_stop_def)

lemma stop_each_nth:
  "i < length srcs \<Longrightarrow>
   stop_each is srcs ! i =
     (if i \<in> set is \<and> playState (srcs ! i) = Scheduled then (srcs ! i)\<lparr>playState := Stopped\<rparr>
      else srcs ! i)"
proof (induction "is" srcs rule: stop_each.induct)
  case (1 srcs)
  then show ?case by simp
next
  case (2 j rest srcs)
  then show ?case
    by (auto simp: source_stop_def nth_list_update)
qed

lemma stop_each_not_scheduled:
  "i < length srcs \<Longrightarrow> i \<in> set is \<Longrightarrow> playState (stop_each is srcs ! i) \<noteq> Scheduled"
  by (simp add: stop_each_nth)

subsection \<open>One message\<close>

lemma onmessage_chunk:
  "chunk_of decode m = Some b \<Longrightarrow> \<not> interrupted m \<Longrightarrow>
   onmessage decode t m s = (None, play_chunk t b s)"
  by (auto simp: chunk_of_def onmessage_def split: option.splits if_splits sum.splits)

lemma play_chunk_sources:
  "sources (play_chunk t b s) =
     sources s @ [scheduled (if nextStartTimeRef s < t then t else nextStartTimeRef s) b]"
  by (simp add: play_chunk_def Let_def scheduled_def)

lemma play_chunk_cursor:
  "nextStartTimeRef (play_chunk t b s) =
     (if nextStartTimeRef s < t then t else nextStartTimeRef s) + duration b"
  by (simp add: play_chunk_def Let_def)

lemma interruption_fields:
  "activeSourcesRef (interruption s) = []"
  "nextStartTimeRef (interruption s) = 0"
  "sources (interruption s) = stop_each (activeSourcesRef s) (sources s)"
  by (simp_all add: interruption_def)

lemma onmessage_interrupted:
  assumes "interrupted m" and "fst (onmessage decode t m s) = None"
  shows "snd (onmessage decode t m s) = interruption s \<or>
    (\<exists>b. chunk_of decode m = Some b \<and> snd (onmessage decode t m s) = interruption (play_chunk t b s))"
  using assms
  by (auto simp: onmessage_def chunk_of_def split: option.splits if_splits sum.splits)

lemma play_chunk_active: "set (activeSourcesRef s) \<subseteq> set (activeSourcesRef (play_chunk t b s))"
  by (auto simp: play_chunk_def Let_def set_add_def)

subsection \<open>Gapless scheduling\<close>

lemma deliver_no_stall:
  "map (\<lambda>c. chunk_of decode (snd c)) cs = map Some bufs \<Longrightarrow>
   \<forall>c\<in>set cs. \<not> interrupted (snd c) \<Longrightarrow>
   no_stall (nextStartTimeRef s) (zip (map fst cs) (map duration bufs)) \<Longrightarrow>
   sources (deliver decode cs s) =
     sources s @ map2 scheduled (spec_start_times (nextStartTimeRef s) (map duration bufs)) bufs \<and>
   nextStartTimeRef (deliver decode cs s) = foldl (+) (nextStartTimeRef s) (map duration bufs)"
proof (induction cs arbitrary: s bufs)
  case Nil
  then show ?case by simp
next
  case (Cons c cs)
  obtain t m where c: "c = (t, m)" by (cases c)
  from Cons.prems(1) obtain b bs where bufs: "bufs = b # bs"
    and b: "chunk_of decode m = Some b"
    and bs: "map (\<lambda>c. chunk_of decode (snd c)) cs = map Some bs"
    by (cases bufs) (auto simp: c)
  from Cons.prems(2) have ni: "\<not> interrupted m" "\<forall>c\<in>set cs. \<not> interrupted (snd c)"
    by (auto simp: c)
  from Cons.prems(3) have le: "t \<le> nextStartTimeRef s"
    and ns: "no_stall (nextStartTimeRef s + duration b) (zip (map fst cs) (map duration bs))"
    by (auto simp: c bufs)
  let ?s1 = "play_chunk t b s"
  from le have nl: "\<not> nextStartTimeRef s < t"
    by (simp add: not_less)
  have cur: "nextStartTimeRef ?s1 = nextStartTimeRef s + duration b"
    using nl by (simp add: play_chunk_cursor)
  have src: "sources ?s1 = sources s @ [scheduled (nextStartTimeRef s) b]"
    using nl by (simp add: play_chunk_sources)
  have "deliver decode (c # cs) s = deliver decode cs ?s1"
    by (simp add: c onmessage_chunk [OF b ni(1)])
  moreover from Cons.IH [OF bs ni(2), of ?s1] ns cur
  have "sources (deliver decode cs ?s1) =
      sources ?s1 @ map2 scheduled (spec_start_times (nextStartTimeRef ?s1) (map duration bs)) bs \<and>
    nextStartTimeRef (deliver decode cs ?s1) = foldl (+) (nextStartTimeRef ?s1) (map duration bs)"
    by simp
  ultimately show ?case
    by (simp add: bufs cur src)
qed

lemma spec_start_times_length [simp]: "length (spec_start_times t ds) = length ds"
  by (induction ds arbitrary: t) auto

lemma spec_start_times_Suc:
  "Suc i < length ds \<Longrightarrow>
   spec_start_times t ds ! Suc i = spec_start_times t ds ! i + ds ! i"
proof (induction ds arbitrary: t i)
  case Nil
  then show ?case by simp
next
  case (Cons d ds)
  show ?case
  proof (cases i)
    case 0
    with Cons.prems show ?thesis by (cases ds) auto
  next
    case (Suc j)
    with Cons show ?thesis by simp
  qed
qed

lemma spec_start_times_nth:
  "i < length ds \<Longrightarrow> spec_start_times t ds ! i = foldl (+) t (take i ds)"
proof (induction ds arbitrary: t i)
  case Nil
  then show ?case by simp
next
  case (Cons d ds)
  then show ?case by (cases i) auto
qed

lemma no_stall_take: "no_stall c xs \<Longrightarrow> no_stall c (take n xs)"
proof (induction c xs arbitrary: n rule: no_stall.induct)
  case (1 cursor)
  then show ?case by simp
next
  case (2 cursor now d rest)
  then show ?case by (cases n) auto
qed

lemma deliver_first_chunk:
  assumes dec: "map (\<lambda>c. chunk_of decode (snd c)) cs = map Some bufs"
    and ni: "\<forall>c\<in>set cs. \<not> interrupted (snd c)"
    and ne: "cs \<noteq> []"
    and t0: "nextStartTimeRef s \<le> fst (hd cs)"
    and ns: "no_stall (fst (hd cs)) (zip (map fst cs) (map duration bufs))"
  shows "sources (deliver decode cs s) =
      sources s @ map2 scheduled (spec_start_times (fst (hd cs)) (map duration bufs)) bufs \<and>
    nextStartTimeRef (deliver decode cs s) = foldl (+) (fst (hd cs)) (map duration bufs)"
proof -
  from ne obtain t m rest where cs: "cs = (t, m) # rest"
    by (cases cs) auto
  from dec obtain b bs where bufs: "bufs = b # bs"
    and b: "chunk_of decode m = Some b"
    and bs: "map (\<lambda>c. chunk_of decode (snd c)) rest = map Some bs"
    by (cases bufs) (auto simp: cs)
  from ni have nim: "\<not> interrupted m" and nir: "\<forall>c\<in>set rest. \<not> interrupted (snd c)"
    by (auto simp: cs)
  let ?s1 = "play_chunk t b s"
  from t0 have start: "(if nextStartTimeRef s < t then t else nextStartTimeRef s) = t"
    by (auto simp: cs not_less intro: order.antisym)
  have cur: "nextStartTimeRef ?s1 = t + duration b"
    by (simp only: play_chunk_cursor start)
  have src: "sources ?s1 = sources s @ [scheduled t b]"
    by (simp only: play_chunk_sources start)
  from ns have "no_stall (nextStartTimeRef ?s1) (zip (map fst rest) (map duration bs))"
    by (simp add: cs bufs cur)
  from deliver_no_stall [OF bs nir this]
  have "sources (deliver decode rest ?s1) =
      sources ?s1 @ map2 scheduled (spec_start_times (t + duration b) (map duration bs)) bs \<and>
    nextStartTimeRef (deliver decode rest ?s1) = foldl (+) (t + duration b) (map duration bs)"
    by (simp add: cur)
  moreover have "deliver decode cs s = deliver decode rest ?s1"
    by (simp add: cs onmessage_chunk [OF b nim])
  ultimately show ?thesis
    by (simp add: cs bufs src)
qed

lemmas ex_defs = example_connected_def onopen_def connect_def example_env_def initial_def
  updateVolumes_def byte_average_def Let_def

lemma example_connected_cursor: "nextStartTimeRef example_connected = 0"
  by (simp add: ex_defs)

lemma example_connected_sources: "sources example_connected = []"
  by (simp add: ex_defs)

text \<open>
  Claim C1. Let the messages \<open>cs\<close> each carry a chunk that decodes (to \<open>bufs\<close>) and no
  interruption flag, let the cursor be at most the device time \<open>t0\<close> of the first
  message, and let no later message arrive with the device clock ahead of the cursor
  (\<open>no_stall\<close>). Then the handler creates exactly one source per chunk, in order, and
  their start times are \<open>t0, t0+d1, (t0+d1)+d2, \<dots>\<close>; after each chunk the cursor is
  its start time plus its duration; each chunk starts exactly where the previous one
  ends; and the cursor ends at \<open>t0\<close> with all durations added in turn.
\<close>

theorem gapless_schedule:
  assumes dec: "map (\<lambda>c. chunk_of decode (snd c)) cs = map Some bufs"
    and ni: "\<forall>c\<in>set cs. \<not> interrupted (snd c)"
    and ne: "cs \<noteq> []"
    and t0: "nextStartTimeRef s \<le> fst (hd cs)"
    and ns: "no_stall (fst (hd cs)) (zip (map fst cs) (map duration bufs))"
  shows "sources (deliver decode cs s) =
      sources s @ map2 scheduled (spec_start_times (fst (hd cs)) (map duration bufs)) bufs \<and>
    (\<forall>i<length cs.
       startedAt (sources (deliver decode cs s) ! (length (sources s) + i)) =
         spec_start_times (fst (hd cs)) (map duration bufs) ! i \<and>
       buffer (sources (deliver decode cs s) ! (length (sources s) + i)) = bufs ! i \<and>
       nextStartTimeRef (deliver decode (take (Suc i) cs) s) =
         startedAt (sources (deliver decode cs s) ! (length (sources s) + i)) + duration (bufs ! i)) \<and>
    (\<forall>i. Suc i < length cs \<longrightarrow>
       startedAt (sources (deliver decode cs s) ! (length (sources s) + Suc i)) =
         startedAt (sources (deliver decode cs s) ! (length (sources s) + i)) + duration (bufs ! i)) \<and>
    nextStartTimeRef (deliver decode cs s) = foldl (+) (fst (hd cs)) (map duration bufs)"
proof -
  let ?ds = "map duration bufs"
  let ?S = "sources (deliver decode cs s)"
  let ?l = "length (sources s)"
  let ?t0 = "fst (hd cs)"
  from dec have len: "length bufs = length cs"
    by (metis length_map)
  note first = deliver_first_chunk [OF dec ni ne t0 ns]
  have A: "?S = sources s @ map2 scheduled (spec_start_times ?t0 ?ds) bufs"
    using first by simp
  have E: "nextStartTimeRef (deliver decode cs s) = foldl (+) ?t0 ?ds"
    using first by simp
  have nth: "?S ! (?l + i) = scheduled (spec_start_times ?t0 ?ds ! i) (bufs ! i)"
    if "i < length cs" for i
    using that len by (simp add: A nth_append)
  have st: "startedAt (?S ! (?l + i)) = spec_start_times ?t0 ?ds ! i"
    if "i < length cs" for i
    by (simp add: nth [OF that] scheduled_def)
  have bu: "buffer (?S ! (?l + i)) = bufs ! i" if "i < length cs" for i
    by (simp add: nth [OF that] scheduled_def)
  have cu: "nextStartTimeRef (deliver decode (take (Suc i) cs) s) =
      startedAt (?S ! (?l + i)) + duration (bufs ! i)" if i: "i < length cs" for i
  proof -
    let ?cs = "take (Suc i) cs" and ?bs = "take (Suc i) bufs"
    have 1: "map (\<lambda>c. chunk_of decode (snd c)) ?cs = map Some ?bs"
      using dec by (simp add: take_map [symmetric])
    have 2: "\<forall>c\<in>set ?cs. \<not> interrupted (snd c)"
      using ni by (meson in_set_takeD)
    have 3: "?cs \<noteq> []" using ne by (cases cs) auto
    have hd: "hd ?cs = hd cs" using ne by (cases cs) auto
    have 4: "nextStartTimeRef s \<le> fst (hd ?cs)" using t0 by (simp add: hd)
    have "zip (map fst ?cs) (map duration ?bs) = take (Suc i) (zip (map fst cs) ?ds)"
      by (simp add: take_map take_zip)
    then have 5: "no_stall (fst (hd ?cs)) (zip (map fst ?cs) (map duration ?bs))"
      using ns by (simp only: hd no_stall_take)
    from deliver_first_chunk [OF 1 2 3 4 5]
    have "nextStartTimeRef (deliver decode ?cs s) = foldl (+) ?t0 (map duration ?bs)"
      by (simp only: hd)
    also have "map duration ?bs = take (Suc i) ?ds"
      by (simp add: take_map)
    also have "foldl (+) ?t0 (take (Suc i) ?ds) = foldl (+) ?t0 (take i ?ds) + duration (bufs ! i)"
      using i len by (simp add: take_Suc_conv_app_nth)
    also have "foldl (+) ?t0 (take i ?ds) = spec_start_times ?t0 ?ds ! i"
      using i len by (simp add: spec_start_times_nth)
    finally show ?thesis
      by (simp only: st [OF i])
  qed
  have ga: "startedAt (?S ! (?l + Suc i)) = startedAt (?S ! (?l + i)) + duration (bufs ! i)"
    if "Suc i < length cs" for i
  proof -
    from that have i: "i < length cs" by simp
    have "spec_start_times ?t0 ?ds ! Suc i = spec_start_times ?t0 ?ds ! i + ?ds ! i"
      using that len by (intro spec_start_times_Suc) simp
    with st [OF that] st [OF i] i len show ?thesis
      by simp
  qed
  from A st bu cu ga E show ?thesis by blast
qed

theorem gapless_schedule_witness:
  "map startedAt (sources (deliver example_decode
      [(2, audio_message ''AAAA''), (9/4, audio_message ''AAAAAA==''), (11/4, audio_message ''AAAA'')]
      example_connected)) = [2, 5/2, 11/4] \<and>
   nextStartTimeRef (deliver example_decode
      [(2, audio_message ''AAAA''), (9/4, audio_message ''AAAAAA==''), (11/4, audio_message ''AAAA'')]
      example_connected) = 13/4"
proof -
  let ?cs = "[(2, audio_message ''AAAA''), (9/4, audio_message ''AAAAAA==''),
    (11/4, audio_message ''AAAA'')] :: (real \<times> message) list"
  let ?bufs = "[\<lparr>duration = 1/2\<rparr>, \<lparr>duration = 1/4\<rparr>, \<lparr>duration = 1/2\<rparr>] :: real audio_buffer list"
  have 1: "map (\<lambda>c. chunk_of example_decode (snd c)) ?cs = map Some ?bufs"
    by (simp add: chunk_of_def example_decode_def audio_message_def)
  have 2: "\<forall>c\<in>set ?cs. \<not> interrupted (snd c)"
    by (simp add: audio_message_def)
  have 3: "?cs \<noteq> []" by simp
  have 4: "nextStartTimeRef example_connected \<le> fst (hd ?cs)"
    by (simp add: example_connected_cursor)
  have 5: "no_stall (fst (hd ?cs)) (zip (map fst ?cs) (map duration ?bufs))"
    by simp
  note g = gapless_schedule [OF 1 2 3 4 5]
  from g [THEN conjunct1]
  have A: "map startedAt (sources (deliver example_decode ?cs example_connected)) = [2, 5/2, 11/4]"
    by (simp add: example_connected_sources scheduled_def)
  from g [THEN conjunct2, THEN conjunct2, THEN conjunct2]
  have B: "nextStartTimeRef (deliver example_decode ?cs example_connected) = 13/4"
    by (simp del: deliver.simps)
  from A B show ?thesis by (simp only:)
qed

subsection \<open>A chunk after a stall\<close>

text \<open>
  Claim C2. When a message whose chunk decodes is handled while the device time is
  greater than the cursor, the new source starts at the device time and carries the
  chunk; the cursor left by the audio path is the device time plus the chunk's
  duration, and so is the cursor left by the handler unless the same message also
  carries the interruption flag (which resets it).
\<close>

theorem stall_starts_at_device_time:
  assumes "nextStartTimeRef s < currentTime"
    and "inlineData m = Some base64Audio" and "base64Audio \<noteq> []"
    and "decode base64Audio = Inr audioBuffer"
  shows "fst (onmessage decode currentTime m s) = None \<and>
    length (sources (snd (onmessage decode currentTime m s))) = Suc (length (sources s)) \<and>
    startedAt (sources (snd (onmessage decode currentTime m s)) ! length (sources s)) =
      currentTime \<and>
    buffer (sources (snd (onmessage decode currentTime m s)) ! length (sources s)) =
      audioBuffer \<and>
    nextStartTimeRef (play_chunk currentTime audioBuffer s) =
      currentTime + duration audioBuffer \<and>
    nextStartTimeRef (snd (onmessage decode currentTime m s)) =
      (if interrupted m then 0 else currentTime + duration audioBuffer)"
  using assms
  by (simp add: onmessage_def play_chunk_def interruption_def Let_def stop_each_nth)

text \<open>The scenario of the specification: half a second of audio at device time 2 with
  the cursor at 0, right after \<open>onopen\<close>.\<close>

theorem stall_starts_at_device_time_witness:
  "nextStartTimeRef example_connected = 0 \<and>
   startedAt (sources (snd (onmessage example_decode 2 (audio_message ''AAAA'')
     example_connected)) ! 0) = 2 \<and>
   nextStartTimeRef (snd (onmessage example_decode 2 (audio_message ''AAAA'')
     example_connected)) = 5/2"
proof -
  have 1: "nextStartTimeRef example_connected < 2"
    by (simp add: example_connected_cursor)
  have 2: "inlineData (audio_message ''AAAA'') = Some ''AAAA''"
    by (simp add: audio_message_def)
  have 3: "''AAAA'' \<noteq> []" by simp
  have 4: "example_decode ''AAAA'' = Inr \<lparr>duration = 1/2\<rparr>"
    by (simp add: example_decode_def)
  from stall_starts_at_device_time [where decode = example_decode, OF 1 2 3 4] show ?thesis
    by (simp add: example_connected_cursor example_connected_sources audio_message_def)
qed

subsection \<open>Interruption\<close>

text \<open>
  Claim C3. Handling an interruption (a message with the flag set whose handler reaches
  the interruption path, and the path itself from any state) leaves ActiveSources
  empty and the cursor at zero, and no source that was in ActiveSources is still
  scheduled or playing. A chunk scheduled next, at a device time \<open>t'\<close> (device times are
  never negative), starts at \<open>t'\<close>.
\<close>

theorem interrupt_stops_and_resets:
  assumes int: "interrupted m" and ok: "fst (onmessage decode t m s) = None"
    and now: "0 \<le> t'" and nxt: "chunk_of decode m' = Some b'"
  shows "activeSourcesRef (snd (onmessage decode t m s)) = [] \<and>
    nextStartTimeRef (snd (onmessage decode t m s)) = 0 \<and>
    (\<forall>src\<in>set (activeSourcesRef s). src < length (sources s) \<longrightarrow>
       playState (sources (snd (onmessage decode t m s)) ! src) \<noteq> Scheduled) \<and>
    startedAt (sources (snd (onmessage decode t' m' (snd (onmessage decode t m s)))) !
       length (sources (snd (onmessage decode t m s)))) = t' \<and>
    activeSourcesRef (interruption s) = [] \<and> nextStartTimeRef (interruption s) = 0 \<and>
    (\<forall>src\<in>set (activeSourcesRef s). src < length (sources s) \<longrightarrow>
       playState (sources (interruption s) ! src) \<noteq> Scheduled) \<and>
    startedAt (last (sources (play_chunk t' b' (interruption s)))) = t'"
proof -
  let ?s' = "snd (onmessage decode t m s)"
  have fresh: "startedAt (sources (snd (onmessage decode t' m' u)) ! length (sources u)) = t'"
    if "nextStartTimeRef u = 0" for u
    using that now nxt
    by (auto simp: onmessage_def chunk_of_def play_chunk_def interruption_def Let_def
        nth_append stop_each_nth
        split: option.splits if_splits sum.splits)
  have stopped: "\<forall>src\<in>set (activeSourcesRef s). src < length (sources s) \<longrightarrow>
       playState (sources (interruption u) ! src) \<noteq> Scheduled"
    if "set (activeSourcesRef s) \<subseteq> set (activeSourcesRef u)"
      and "length (sources s) \<le> length (sources u)" for u
  proof (intro ballI impI)
    fix src
    assume "src \<in> set (activeSourcesRef s)" and "src < length (sources s)"
    with that have "src \<in> set (activeSourcesRef u)" and "src < length (sources u)"
      by auto
    then show "playState (sources (interruption u) ! src) \<noteq> Scheduled"
      by (simp add: interruption_fields stop_each_not_scheduled)
  qed
  from onmessage_interrupted [OF int ok]
  obtain u where u: "?s' = interruption u"
    and sub: "set (activeSourcesRef s) \<subseteq> set (activeSourcesRef u)"
    and len: "length (sources s) \<le> length (sources u)"
    using play_chunk_active [of s] by (auto simp: play_chunk_sources)
  have 1: "activeSourcesRef ?s' = []" "nextStartTimeRef ?s' = 0"
    by (simp_all add: u interruption_fields)
  have 2: "\<forall>src\<in>set (activeSourcesRef s). src < length (sources s) \<longrightarrow>
       playState (sources ?s' ! src) \<noteq> Scheduled"
    unfolding u by (rule stopped [OF sub len])
  have 3: "startedAt (sources (snd (onmessage decode t' m' ?s')) ! length (sources ?s')) = t'"
    by (rule fresh [OF 1(2)])
  have 4: "startedAt (last (sources (play_chunk t' b' (interruption s)))) = t'"
    using now by (simp add: play_chunk_sources interruption_fields scheduled_def)
  from 1 2 3 4 stopped [of s] show ?thesis
    by (simp add: interruption_fields)
qed

theorem interrupt_stops_and_resets_witness:
  "activeSourcesRef example_playing = [0] \<and>
   nextStartTimeRef example_playing = 5/2 \<and>
   activeSourcesRef (snd (onmessage example_decode (9/4) interrupted_message example_playing)) = [] \<and>
   nextStartTimeRef (snd (onmessage example_decode (9/4) interrupted_message example_playing)) = 0 \<and>
   playState (sources (snd (onmessage example_decode (9/4) interrupted_message example_playing)) ! 0)
     \<noteq> Scheduled \<and>
   startedAt (sources (snd (onmessage example_decode 3 (audio_message ''AAAA'')
     (snd (onmessage example_decode (9/4) interrupted_message example_playing)))) ! 1) = 3"
proof -
  have act: "activeSourcesRef example_playing = [0]"
    and cur: "nextStartTimeRef example_playing = 5/2"
    and len: "length (sources example_playing) = 1"
    by (simp_all add: example_playing_def onmessage_def play_chunk_def audio_message_def
        example_decode_def set_add_def ex_defs)
  have 1: "interrupted interrupted_message"
    by (simp add: interrupted_message_def)
  have 2: "fst (onmessage example_decode (9/4) interrupted_message example_playing) = None"
    by (simp add: onmessage_def interrupted_message_def)
  have 3: "(0::real) \<le> 3" by simp
  have 4: "chunk_of example_decode (audio_message ''AAAA'') = Some \<lparr>duration = 1/2\<rparr>"
    by (simp add: chunk_of_def audio_message_def example_decode_def)
  have 5: "length (sources (snd (onmessage example_decode (9/4) interrupted_message
      example_playing))) = 1"
    by (simp add: onmessage_def interrupted_message_def interruption_fields len)
  from interrupt_stops_and_resets [where decode = example_decode, OF 1 2 3 4] show ?thesis
    by (simp add: act cur len 5)
qed

section \<open>ActiveSources\<close>

lemma close_ref_cases:
  "close_ref r cs = Inr (r', cs') \<Longrightarrow> r' = None \<and> length cs' = length cs"
  by (auto simp: close_ref_def ctx_close_def split: option.splits if_splits)

lemma disconnect_sources_active:
  "(sources (snd (disconnect s)) = sources s \<and>
    activeSourcesRef (snd (disconnect s)) = activeSourcesRef s) \<or>
   (sources (snd (disconnect s)) = stop_each (activeSourcesRef s) (sources s) \<and>
    activeSourcesRef (snd (disconnect s)) = [])"
  by (auto simp: disconnect_def Let_def split: sum.splits prod.splits option.splits)

lemma live_initial: "active_sources_live initial"
  by (simp add: active_sources_live_def initial_def)

lemma live_play_chunk: "active_sources_live s \<Longrightarrow> active_sources_live (play_chunk t b s)"
  by (auto simp: active_sources_live_def play_chunk_def Let_def set_add_def nth_append)

lemma live_interruption: "active_sources_live (interruption s)"
  by (simp add: active_sources_live_def interruption_def)

lemma live_onmessage:
  "active_sources_live s \<Longrightarrow> active_sources_live (snd (onmessage decode t m s))"
  by (auto simp: onmessage_def live_play_chunk live_interruption
      split: option.splits sum.splits)

lemma live_onended: "active_sources_live s \<Longrightarrow> active_sources_live (onended src s)"
  by (auto simp: active_sources_live_def onended_def set_delete_def)

lemma live_source_finished:
  "active_sources_live s \<Longrightarrow> active_sources_live (source_finished src s)"
  by (auto simp: active_sources_live_def source_finished_def onended_def set_delete_def
      nth_list_update)

lemma live_disconnect: "active_sources_live s \<Longrightarrow> active_sources_live (snd (disconnect s))"
  using disconnect_sources_active [of s]
  by (auto simp: active_sources_live_def)

lemma live_frame:
  "active_sources_live s \<Longrightarrow> sources s' = sources s \<Longrightarrow>
   activeSourcesRef s' = activeSourcesRef s \<Longrightarrow> active_sources_live s'"
  by (simp add: active_sources_live_def)

lemma live_connect: "active_sources_live s \<Longrightarrow> active_sources_live (connect v env s)"
  by (erule live_frame) (simp_all add: connect_def updateVolumes_def Let_def)

lemma live_onclose: "active_sources_live s \<Longrightarrow> active_sources_live (onclose s)"
  unfolding onclose_def
  by (rule live_disconnect) (simp add: active_sources_live_def)

lemma live_onerror: "active_sources_live s \<Longrightarrow> active_sources_live (onerror s)"
  unfolding onerror_def
  by (rule live_disconnect) (simp add: active_sources_live_def)

lemma live_step:
  assumes "active_sources_live s"
  shows "active_sources_live (step decode createPcmBlob e s)"
proof (cases e)
  case (Connect v env)
  with assms show ?thesis by (simp add: live_connect)
next
  case Disconnect
  with assms show ?thesis by (simp add: live_disconnect)
next
  case (OnOpen k)
  have "active_sources_live (onopen k s)"
    by (rule live_frame [OF assms]) (simp_all add: onopen_def)
  with OnOpen show ?thesis by simp
next
  case (OnMessage k t m)
  with assms show ?thesis by (simp add: live_onmessage)
next
  case (OnClose k)
  with assms show ?thesis by (simp add: live_onclose)
next
  case (OnError k)
  with assms show ?thesis by (simp add: live_onerror)
next
  case (AudioProcess k frame)
  have "active_sources_live (audioprocess createPcmBlob k frame s)"
    by (rule live_frame [OF assms]) (simp_all add: audioprocess_def)
  with AudioProcess show ?thesis by simp
next
  case (AnimationFrame inD outD h)
  have "active_sources_live (updateVolumes inD outD h s)"
    by (rule live_frame [OF assms]) (simp_all add: updateVolumes_def)
  with AnimationFrame show ?thesis by simp
next
  case (SourceEnded src)
  with assms show ?thesis by (simp add: live_source_finished)
qed

lemma reachable_live: "reachable decode createPcmBlob s \<Longrightarrow> active_sources_live s"
  by (induction rule: reachable.induct) (auto simp: live_initial live_step)

text \<open>
  Claim C9. Every member of ActiveSources is a source that has neither ended nor been
  stopped (\<open>active_sources_live\<close>). This holds initially, and scheduling a chunk, the
  whole message handler, natural completion, the \<open>onended\<close> handler, interruption and
  \<open>disconnect\<close> each preserve it, so it holds in every reachable state. After natural
  completion the source is no longer a member; the \<open>onended\<close> handler only removes the
  source from the set, and natural completion changes nothing but that source's play
  state and the set.
\<close>

theorem active_sources_never_stale:
  "active_sources_live initial \<and>
   (active_sources_live s \<longrightarrow>
      active_sources_live (play_chunk t b s) \<and>
      active_sources_live (snd (onmessage decode t m s)) \<and>
      active_sources_live (source_finished src s) \<and>
      active_sources_live (onended src s) \<and>
      active_sources_live (interruption s) \<and>
      active_sources_live (snd (disconnect s)) \<and>
      src \<notin> set (activeSourcesRef (source_finished src s))) \<and>
   (reachable decode createPcmBlob s \<longrightarrow> active_sources_live s) \<and>
   src \<notin> set (activeSourcesRef (onended src s)) \<and>
   onended src s = s\<lparr>activeSourcesRef := removeAll src (activeSourcesRef s)\<rparr> \<and>
   (enabled (SourceEnded src) s \<longrightarrow>
      source_finished src s =
        s\<lparr>sources := (sources s)[src := (sources s ! src)\<lparr>playState := Ended\<rparr>],
          activeSourcesRef := removeAll src (activeSourcesRef s)\<rparr>)"
proof -
  have notin: "src \<notin> set (activeSourcesRef (source_finished src s))" if "active_sources_live s"
    using that
    by (auto simp: active_sources_live_def source_finished_def onended_def set_delete_def)
  have a: "src \<notin> set (activeSourcesRef (onended src s))"
    by (simp add: onended_def set_delete_def)
  have b: "onended src s = s\<lparr>activeSourcesRef := removeAll src (activeSourcesRef s)\<rparr>"
    by (simp add: onended_def set_delete_def)
  have c: "source_finished src s =
        s\<lparr>sources := (sources s)[src := (sources s ! src)\<lparr>playState := Ended\<rparr>],
          activeSourcesRef := removeAll src (activeSourcesRef s)\<rparr>"
    if "enabled (SourceEnded src) s"
    using that by (simp add: source_finished_def onended_def set_delete_def)
  show ?thesis
  proof (intro conjI impI)
    show "active_sources_live initial" by (rule live_initial)
    show "active_sources_live s" if "reachable decode createPcmBlob s"
      using that by (rule reachable_live)
    show "src \<notin> set (activeSourcesRef (onended src s))" by (rule a)
    show "onended src s = s\<lparr>activeSourcesRef := removeAll src (activeSourcesRef s)\<rparr>"
      by (rule b)
    show "source_finished src s =
        s\<lparr>sources := (sources s)[src := (sources s ! src)\<lparr>playState := Ended\<rparr>],
          activeSourcesRef := removeAll src (activeSourcesRef s)\<rparr>"
      if "enabled (SourceEnded src) s"
      using that by (rule c)
  qed (simp_all only: live_play_chunk live_onmessage live_source_finished
        live_onended live_interruption live_disconnect notin not_False_eq_True)
qed


theorem active_sources_never_stale_witness:
  "active_sources_live example_playing \<and> activeSourcesRef example_playing = [0] \<and>
   active_sources_live (source_finished 0 example_playing) \<and>
   0 \<notin> set (activeSourcesRef (source_finished 0 example_playing)) \<and>
   active_sources_live (interruption example_playing)"
proof -
  have act: "activeSourcesRef example_playing = [0]"
    and src: "sources example_playing = [scheduled 2 \<lparr>duration = 1/2\<rparr>]"
    by (simp_all add: example_playing_def onmessage_def play_chunk_def audio_message_def
        example_decode_def set_add_def scheduled_def ex_defs)
  have live: "active_sources_live example_playing"
    by (simp add: active_sources_live_def act src scheduled_def)
  from active_sources_never_stale [of example_playing _ _ _ _ 0] live act show ?thesis
    by blast
qed

section \<open>Disconnecting\<close>

lemma disconnect_refs_open:
  assumes "refs_open s"
  shows "fst (disconnect s) = None"
    and "audioContextRef (snd (disconnect s)) = None"
    and "outputContextRef (snd (disconnect s)) = None"
    and "activeSourcesRef (snd (disconnect s)) = []"
    and "sources (snd (disconnect s)) = stop_each (activeSourcesRef s) (sources s)"
    and "\<not> isConnected (snd (disconnect s))"
    and "\<not> isConnecting (snd (disconnect s))"
    and "inputVolume (snd (disconnect s)) = 0"
    and "outputVolume (snd (disconnect s)) = 0"
    and "animationFrameRef (snd (disconnect s)) =
      (if animationFrameRef s = Some 0 then Some 0 else None)"
    and "closures (snd (disconnect s)) = closures s"
    and "tracks (snd (disconnect s)) = tracks s"
    and "console (snd (disconnect s)) = console s"
    and "sent (snd (disconnect s)) = sent s"
    and "length (contexts (snd (disconnect s))) = length (contexts s)"
    and "\<forall>c<length (contexts s). contexts (snd (disconnect s)) ! c =
      (if audioContextRef s = Some c \<or> outputContextRef s = Some c then Closed
       else contexts s ! c)"
  using assms
  by (auto simp: refs_open_def disconnect_def close_ref_def ctx_close_def Let_def
      nth_list_update split: option.splits)















lemma example_playing_facts:
  "refs_open example_playing" "isConnected example_playing"
  "activeSourcesRef example_playing = [0]"
  "nextStartTimeRef example_playing = 5/2"
  "tracks example_playing = [Live]"
  "closures example_playing =
     [\<lparr>stream = 0, inputCtx = 0, outputCtx = 1, onaudioprocess = True\<rparr>]"
  "contexts example_playing = [Running, Running]"
  "audioContextRef example_playing = Some 0"
  "outputContextRef example_playing = Some 1"
  by (simp_all add: refs_open_def example_playing_def onmessage_def play_chunk_def
      audio_message_def example_decode_def set_add_def ex_defs)






text \<open>
  What a call meets that starts while an earlier call is suspended at its first
  \<open>await\<close>: the ref still holds the context that the earlier call has closed.
\<close>

lemma disconnect_begin_in_flight:
  assumes "refs_open s" and "audioContextRef s = Some c"
  shows "fst (disconnect_begin s) = AwaitingInputClose"
    and "fst (disconnect_begin (snd (disconnect_begin s))) = Rejected InvalidStateError"
  using assms
  by (simp_all add: refs_open_def disconnect_begin_def ctx_close_def)




text \<open>
  Claim C10. \<open>disconnect\<close> leaves the \<open>error\<close> field as it was, from every state; so
  does \<open>onclose\<close>, and after \<open>onerror\<close> the message recorded by the handler is still
  there.
\<close>

theorem disconnect_keeps_error:
  "error (snd (disconnect s)) = error s \<and>
   error (onclose s) = error s \<and>
   error (onerror s) = Some ''Connection error occurred.''"
  by (simp add: onclose_def onerror_def disconnect_def Let_def
      split: sum.splits prod.splits option.splits)

theorem disconnect_keeps_error_witness:
  "error (onerror example_playing) = Some ''Connection error occurred.'' \<and>
   error (snd (disconnect (onerror example_playing))) = Some ''Connection error occurred.''"
  using disconnect_keeps_error [of "onerror example_playing"]
    disconnect_keeps_error [of example_playing]
  by simp

text \<open>
  Claim C5, as amended. When the transport delivers an error in a state whose context
  refs hold open contexts (every reachable state), the session ends disconnected, the
  \<open>error\<close> field holds the message "Connection error occurred.", both audio contexts
  the refs held are closed and the refs cleared, ActiveSources is empty, the volumes
  are zero and no new \<open>connect\<close> closure exists (no retry). The microphone tracks are
  left as they were.
\<close>

theorem onerror_disconnects:
  assumes "refs_open s"
  shows "\<not> isConnected (onerror s) \<and> \<not> isConnecting (onerror s) \<and>
    error (onerror s) = Some ''Connection error occurred.'' \<and>
    audioContextRef (onerror s) = None \<and> outputContextRef (onerror s) = None \<and>
    (\<forall>c. audioContextRef s = Some c \<or> outputContextRef s = Some c \<longrightarrow>
       contexts (onerror s) ! c = Closed) \<and>
    activeSourcesRef (onerror s) = [] \<and>
    inputVolume (onerror s) = 0 \<and> outputVolume (onerror s) = 0 \<and>
    closures (onerror s) = closures s \<and>
    tracks (onerror s) = tracks s \<and>
    console (onerror s) = console s @ [''Gemini Live Error'']"
proof -
  let ?u = "s\<lparr>console := console s @ [''Gemini Live Error''],
              error := Some ''Connection error occurred.''\<rparr>"
  have u: "refs_open ?u"
    using assms by (simp add: refs_open_def split: option.splits)
  have e: "error (onerror s) = Some ''Connection error occurred.''"
    by (simp add: onerror_def disconnect_def Let_def split: sum.splits prod.splits option.splits)
  have c: "contexts (onerror s) ! c = Closed"
    if "audioContextRef s = Some c \<or> outputContextRef s = Some c" for c
  proof -
    from that assms have "c < length (contexts ?u)"
      by (auto simp: refs_open_def split: option.splits)
    with disconnect_refs_open(16) [OF u] that show ?thesis
      by (auto simp: onerror_def)
  qed
  from disconnect_refs_open [OF u] e c show ?thesis
    by (simp add: onerror_def)
qed

theorem onerror_disconnects_witness:
  "isConnected example_playing \<and> \<not> isConnected (onerror example_playing) \<and>
   \<not> isConnecting (onerror example_playing) \<and>
   error (onerror example_playing) = Some ''Connection error occurred.'' \<and>
   contexts (onerror example_playing) = [Closed, Closed] \<and>
   activeSourcesRef (onerror example_playing) = [] \<and>
   closures (onerror example_playing) = closures example_playing"
proof -
  note w = onerror_disconnects [OF example_playing_facts(1)]
  have "length (contexts (onerror example_playing)) = 2"
    using disconnect_refs_open(15) [of "example_playing\<lparr>console := console example_playing @ [''Gemini Live Error''],
              error := Some ''Connection error occurred.''\<rparr>"]
    by (simp add: onerror_def refs_open_def example_playing_facts)
  moreover from w have "contexts (onerror example_playing) ! 0 = Closed"
    and "contexts (onerror example_playing) ! 1 = Closed"
    by (simp_all add: example_playing_facts)
  ultimately have "contexts (onerror example_playing) = [Closed, Closed]"
    by (simp add: list_eq_iff_nth_eq less_Suc_eq numeral_2_eq_2)
  with w show ?thesis
    by (simp add: example_playing_facts(2))
qed

text \<open>
  Claim C5 as stated fails: after \<open>connect\<close>, \<open>onopen\<close> and \<open>onerror\<close> the track of the
  microphone stream is still live. Neither \<open>onerror\<close> nor \<open>disconnect\<close> stops the
  tracks of \<open>stream\<close>.
\<close>

theorem microphone_not_released:
  "isConnected example_connected \<and>
   tracks example_connected ! stream (closures example_connected ! 0) = Live \<and>
   \<not> isConnected (onerror example_connected) \<and>
   tracks (onerror example_connected) ! stream (closures example_connected ! 0) = Live"
  by (simp add: ex_defs onerror_def disconnect_def close_ref_def ctx_close_def)

section \<open>A chunk that fails to decode\<close>

text \<open>
  Claim C6, as amended. When the payload of a message fails to decode, the handler
  neither catches nor logs the error: it ends with that exception, and handling of that
  message stops there. The session is not terminated: the whole state, with connection
  status, cursor, ActiveSources and console, is as it was, and the messages after it
  are handled as if it had not arrived.
\<close>

theorem bad_chunk_dropped:
  assumes "inlineData m = Some base64Audio" and "base64Audio \<noteq> []"
    and "decode base64Audio = Inl e"
  shows "onmessage decode currentTime m s = (Some e, s) \<and>
    step decode createPcmBlob (OnMessage k currentTime m) s = s \<and>
    deliver decode ((currentTime, m) # rest) s = deliver decode rest s"
  using assms by (simp add: onmessage_def)

theorem bad_chunk_dropped_witness:
  "onmessage example_decode 3 \<lparr>inlineData = Some ''A'', interrupted = True\<rparr> example_playing =
     (Some MalformedAudioData, example_playing) \<and>
   nextStartTimeRef (deliver example_decode
     [(3, \<lparr>inlineData = Some ''A'', interrupted = True\<rparr>), (3, audio_message ''AAAA'')]
     example_playing) = 7/2"
proof -
  have 1: "inlineData \<lparr>inlineData = Some ''A'', interrupted = True\<rparr> = Some ''A''" by simp
  have 2: "''A'' \<noteq> []" by simp
  have 3: "example_decode ''A'' = Inl MalformedAudioData"
    by (simp add: example_decode_def)
  from bad_chunk_dropped [where decode = example_decode, OF 1 2 3, of 3 example_playing _ _
      "[(3, audio_message ''AAAA'')]"]
  show ?thesis
    by (simp add: onmessage_def audio_message_def example_decode_def play_chunk_def
        example_playing_facts Let_def del: deliver.simps(2))
      (simp add: onmessage_def audio_message_def example_decode_def play_chunk_def
        example_playing_facts Let_def)
qed

text \<open>
  Claim C6 as stated fails in its first part: the handler logs nothing when the
  payload fails to decode.
\<close>

theorem decode_error_not_logged:
  "fst (onmessage example_decode 3 (audio_message ''A'') example_playing) =
     Some MalformedAudioData \<and>
   console (snd (onmessage example_decode 3 (audio_message ''A'') example_playing)) =
     console example_playing"
  by (simp add: onmessage_def audio_message_def example_decode_def)

section \<open>Frames are forwarded only while connected\<close>






















section \<open>The PCM round trip\<close>

lemma le_int16_roundtrip:
  assumes "- 32768 \<le> q" and "q \<le> 32767"
  shows "le_int16 (nat (q mod 256)) (nat ((q div 256) mod 256)) = q"
proof -
  have u: "q mod 256 + 256 * (q div 256 mod 256) = q mod 65536"
    using zmod_zmult2_eq [of 256 q 256] by simp
  have m: "q mod 65536 = (if 0 \<le> q then q else q + 65536)"
  proof (cases "0 \<le> q")
    case True
    with assms show ?thesis by simp
  next
    case False
    have "q mod 65536 = (q + 65536) mod 65536" by simp
    also from False assms have "\<dots> = q + 65536" by (intro mod_pos_pos_trivial) simp_all
    finally show ?thesis using False by simp
  qed
  have "int (nat (q mod 256)) + 256 * int (nat (q div 256 mod 256)) = q mod 65536"
    using u by simp
  with m assms show ?thesis
    by (simp add: le_int16_def Let_def)
qed

lemma clamp16_range: "- 32768 \<le> clamp16 q \<and> clamp16 q \<le> 32767"
  by (simp add: clamp16_def)

lemma pcm_samples_encode:
  "pcm_samples (pcm_encode rnd s) = map (\<lambda>x. real_of_int (encode_sample rnd x) / 32767) s"
proof (induction s)
  case Nil
  show ?case by (simp add: pcm_encode_def)
next
  case (Cons x xs)
  have "le_int16 (nat (encode_sample rnd x mod 256)) (nat ((encode_sample rnd x div 256) mod 256))
      = encode_sample rnd x"
    by (rule le_int16_roundtrip) (simp_all add: encode_sample_def clamp16_range)
  with Cons show ?case
    by (simp add: pcm_encode_def int16_le_def)
qed

lemma length_pcm_encode: "length (pcm_encode rnd s) = 2 * length s"
  by (induction s) (simp_all add: pcm_encode_def int16_le_def)

lemma encode_sample_error:
  assumes rnd: "\<bar>real_of_int (rnd (x * 32767)) - x * 32767\<bar> \<le> 1"
    and x: "- 1 \<le> x" "x \<le> 1"
  shows "\<bar>real_of_int (encode_sample rnd x) / 32767 - x\<bar> \<le> 1 / 32767"
proof -
  define y where "y = x * 32767"
  define r where "r = rnd y"
  from x have y: "- 32767 \<le> y" "y \<le> 32767" by (simp_all add: y_def)
  from rnd have r: "\<bar>real_of_int r - y\<bar> \<le> 1" by (simp add: r_def y_def)
  have "\<bar>real_of_int (clamp16 r) - y\<bar> \<le> 1"
  proof (cases "r < - 32768")
    case True
    then have "clamp16 r = - 32768" by (simp add: clamp16_def)
    moreover from True have "real_of_int r < - 32768" by linarith
    ultimately show ?thesis using r y by (simp; linarith)
  next
    case False
    show ?thesis
    proof (cases "32767 < r")
      case True
      then have "clamp16 r = 32767" by (simp add: clamp16_def)
      moreover from True have "32767 < real_of_int r" by linarith
      ultimately show ?thesis using r y by (simp; linarith)
    next
      case False
      with \<open>\<not> r < - 32768\<close> have "clamp16 r = r" by (simp add: clamp16_def)
      with r show ?thesis by simp
    qed
  qed
  then have "\<bar>real_of_int (encode_sample rnd x) - x * 32767\<bar> \<le> 1"
    by (simp add: encode_sample_def r_def y_def)
  then have "\<bar>(real_of_int (encode_sample rnd x) - x * 32767) / 32767\<bar> \<le> 1 / 32767"
    by (simp add: divide_right_mono)
  then show ?thesis
    by (simp add: diff_divide_distrib)
qed

lemma trunc_zero_error: "\<bar>real_of_int (trunc_zero y) - y\<bar> \<le> 1"
  unfolding trunc_zero_def by (simp split: if_splits) linarith

text \<open>
  Claim C7. For samples in \<open>[-1, 1]\<close>, and any conversion to integers that is off by at
  most one, decoding the encoding succeeds (mono), yields as many samples as were
  encoded, and each differs from the original by at most \<open>1/32767\<close>.
\<close>

theorem pcm_roundtrip:
  assumes rnd: "\<forall>y. \<bar>real_of_int (rnd y) - y\<bar> \<le> 1"
    and range: "\<forall>x\<in>set s. - 1 \<le> x \<and> x \<le> 1"
  shows "\<exists>buf. pcm_decode (pcm_encode rnd s) rate 1 = Inr buf \<and>
    length (samples buf) = length s \<and>
    (\<forall>i<length s. \<bar>samples buf ! i - s ! i\<bar> \<le> 1 / 32767)"
proof -
  let ?buf = "\<lparr>samples = pcm_samples (pcm_encode rnd s), sampleRate = rate,
    numberOfChannels = 1\<rparr>"
  have d: "pcm_decode (pcm_encode rnd s) rate 1 = Inr ?buf"
    by (simp add: pcm_decode_def length_pcm_encode)
  have l: "length (samples ?buf) = length s"
    by (simp add: pcm_samples_encode)
  have e: "\<bar>samples ?buf ! i - s ! i\<bar> \<le> 1 / 32767" if "i < length s" for i
  proof -
    from that range have "- 1 \<le> s ! i" "s ! i \<le> 1" by auto
    with rnd have "\<bar>real_of_int (encode_sample rnd (s ! i)) / 32767 - s ! i\<bar> \<le> 1 / 32767"
      by (intro encode_sample_error) auto
    with that show ?thesis by (simp add: pcm_samples_encode)
  qed
  from d l e show ?thesis by blast
qed

theorem pcm_roundtrip_witness:
  "pcm_encode trunc_zero [1/2, - 1] = [255, 63, 1, 128] \<and>
   (\<exists>buf. pcm_decode (pcm_encode trunc_zero [1/2, - 1]) 24000 1 = Inr buf \<and>
      length (samples buf) = 2 \<and>
      \<bar>samples buf ! 0 - 1/2\<bar> \<le> 1 / 32767 \<and>
      \<bar>samples buf ! 1 - (- 1)\<bar> \<le> 1 / 32767)"
proof -
  have 1: "\<forall>y. \<bar>real_of_int (trunc_zero y) - y\<bar> \<le> 1"
    by (simp add: trunc_zero_error)
  have 2: "\<forall>x\<in>set [1/2, - 1 :: real]. - 1 \<le> x \<and> x \<le> 1"
    by simp
  from pcm_roundtrip [OF 1 2, of 24000]
  obtain buf where b: "pcm_decode (pcm_encode trunc_zero [1/2, - 1]) 24000 1 = Inr buf"
    and l: "length (samples buf) = 2"
    and e: "\<forall>i<2. \<bar>samples buf ! i - [1/2, - 1] ! i\<bar> \<le> 1 / 32767"
    by auto
  from e [rule_format, of 0] have "\<bar>samples buf ! 0 - 1/2\<bar> \<le> 1 / 32767"
    by simp
  moreover from e [rule_format, of 1] have "\<bar>samples buf ! 1 - (- 1)\<bar> \<le> 1 / 32767"
    by simp
  moreover have "pcm_encode trunc_zero [1/2, - 1] = [255, 63, 1, 128]"
    by (simp add: pcm_encode_def int16_le_def encode_sample_def clamp16_def trunc_zero_def)
  ultimately show ?thesis using b l by blast
qed

end
